theory Spec2Isabelle
  imports Complex_Main "HOL-Library.Log_Nat" "HOL-Library.Multiset" "HOL-Library.Monad_Syntax"
begin

section \<open>float64 values\<close>

text \<open>
  Sample values are Go \<open>float64\<close>s. A finite float64 is represented by the rational it
  denotes. The two operations the collectors use, the conversion \<open>float64(i)\<close> of an
  integer and the division \<open>x / y\<close>, round their exact result to the nearest value with
  a 53-bit significand, ties to even. The exponent range is not modelled: every value
  that arises here is zero or lies between \<open>2\<^sup>-\<^sup>1\<^sup>0\<close> and \<open>2\<^sup>6\<^sup>3\<close> in magnitude.
\<close>

type_synonym float64 = rat

definition round_half_even :: "rat \<Rightarrow> int" where
  "round_half_even y =
     (let f = \<lfloor>y\<rfloor>; r = y - of_int f
      in if r < 1 / 2 then f
         else if 1 / 2 < r then f + 1
         else if even f then f else f + 1)"

text \<open>\<open>ilog2 x\<close> is the \<open>e\<close> with \<open>2\<^sup>e \<le> x < 2\<^sup>e\<^sup>+\<^sup>1\<close>, for \<open>x > 0\<close>.\<close>

definition ilog2 :: "rat \<Rightarrow> int" where
  "ilog2 x =
     (case quotient_of x of (p, q) \<Rightarrow>
        (let d = bitlen p - bitlen q
         in if 2 powi d \<le> x then d else d - 1))"

definition f64_round :: "rat \<Rightarrow> float64" where
  "f64_round x =
     (if x = 0 then 0
      else (let e = ilog2 \<bar>x\<bar> - 52
            in of_int (round_half_even (x / 2 powi e)) * 2 powi e))"

definition float64_of_int :: "int \<Rightarrow> float64" where
  "float64_of_int i = f64_round (of_int i)"

definition f64_div :: "float64 \<Rightarrow> float64 \<Rightarrow> float64" where
  "f64_div x y = f64_round (x / y)"

section \<open>Prometheus descriptors and constant metrics\<close>

record Desc =
  fqName :: string
  helpText :: string
  variableLabels :: "string list"

definition NewDesc :: "string \<Rightarrow> string \<Rightarrow> string list \<Rightarrow> Desc" where
  "NewDesc name h labels = \<lparr>fqName = name, helpText = h, variableLabels = labels\<rparr>"

datatype ValueType = CounterValue | GaugeValue | UntypedValue

record Metric =
  desc :: Desc
  valType :: ValueType
  val :: float64
  labelValues :: "string list"

text \<open>
  \<open>MustNewConstMetric\<close> panics when the number of label values differs from the number
  of variable labels of the descriptor. A panic is the result \<open>None\<close>.
\<close>

definition MustNewConstMetric ::
    "Desc \<Rightarrow> ValueType \<Rightarrow> float64 \<Rightarrow> string list \<Rightarrow> Metric option" where
  "MustNewConstMetric d t v lv =
     (if length lv = length (variableLabels d)
      then Some \<lparr>desc = d, valType = t, val = v, labelValues = lv\<rparr>
      else None)"

section \<open>The effects of a scrape\<close>

text \<open>
  A collector sends metrics on the channel \<open>ch\<close>, increments the counter
  \<open>ScrapeErrorTotalMetric\<close> of a resource kind, records an observation in the summary
  \<open>ResourcesPerScrapeMetric\<close> of a resource kind, and logs. The state of the world is the
  sequence of these effects in the order they happened; the channel contents and the
  counters are read off it.

  Modelled from the spec: the two metric vectors are variables of the collectors package
  declared in a file that is not at hand. By the spec they are an error count and the
  resource-count observations of the scrapes, each keyed by resource kind: \<open>Inc()\<close> adds
  one to the count of its kind and \<open>Observe(v)\<close> records \<open>v\<close> for its kind.
\<close>

datatype event =
    Send Metric
  | ScrapeErrorInc string
  | ResourcesObserve string float64
  | Errorf string string
  | Infof string int

type_synonym world = "event list"

fun sent :: "world \<Rightarrow> Metric list" where
  "sent [] = []"
| "sent (Send m # es) = m # sent es"
| "sent (_ # es) = sent es"

definition scrapeErrorTotal :: "world \<Rightarrow> string \<Rightarrow> nat" where
  "scrapeErrorTotal w kind = length (filter (\<lambda>e. e = ScrapeErrorInc kind) w)"

fun resourcesPerScrape :: "world \<Rightarrow> string \<Rightarrow> float64 list" where
  "resourcesPerScrape [] kind = []"
| "resourcesPerScrape (ResourcesObserve k v # es) kind =
     (if k = kind then v # resourcesPerScrape es kind else resourcesPerScrape es kind)"
| "resourcesPerScrape (_ # es) kind = resourcesPerScrape es kind"

section \<open>Kubernetes objects\<close>

text \<open>
  A \<open>time.Time\<close> counts seconds and nanoseconds from January 1 of year 1, 00:00:00 UTC.
  It is zero when both are zero; its Unix time counts seconds from January 1, 1970.
\<close>

record Time =
  sec :: int
  nsec :: int

definition IsZero :: "Time \<Rightarrow> bool" where
  "IsZero t = (sec t = 0 \<and> nsec t = 0)"

definition unixToInternal :: int where
  "unixToInternal = (1969 * 365 + 1969 div 4 - 1969 div 100 + 1969 div 400) * 86400"

definition Unix :: "Time \<Rightarrow> int" where
  "Unix t = sec t - unixToInternal"

record ObjectMeta =
  Name :: string
  Namespace :: string
  CreationTimestamp :: Time

record ComponentCondition =
  Type :: string
  Status :: string
  Message :: string
  Error :: string

record ComponentStatus = ObjectMeta +
  Conditions :: "ComponentCondition list"

definition ComponentHealthy :: string where "ComponentHealthy = ''Healthy''"
definition ConditionTrue :: string where "ConditionTrue = ''True''"
definition ConditionFalse :: string where "ConditionFalse = ''False''"
definition ConditionUnknown :: string where "ConditionUnknown = ''Unknown''"

text \<open>A \<open>resource.Quantity\<close> is read through \<open>MilliValue()\<close> only, an \<open>int64\<close>.\<close>

record Quantity =
  MilliValue :: int

type_synonym ResourceList = "string \<rightharpoonup> Quantity"

record LimitRangeItem =
  Item_Type :: string
  Item_Max :: ResourceList
  Item_Min :: ResourceList
  Item_Default :: ResourceList
  Item_DefaultRequest :: ResourceList
  Item_MaxLimitRequestRatio :: ResourceList

record LimitRangeSpec =
  Limits :: "LimitRangeItem list"

record LimitRange = ObjectMeta +
  Spec :: LimitRangeSpec

section \<open>The componentstatus collector\<close>

definition descComponentStatusStatusHealthy :: Desc where
  "descComponentStatusStatusHealthy =
     NewDesc ''kube_componentstatus_status_healthy''
       ''kube component status healthy status.'' [''name'', ''status'']"

text \<open>
  Modelled from the spec: \<open>boolFloat64\<close> is a helper of the collectors package that is
  not among the source files at hand. The spec says of a tri-state expansion that exactly
  one sample is 1 and the rest are 0, so a true comparison gives 1 and a false one 0.
\<close>

definition boolFloat64 :: "bool \<Rightarrow> float64" where
  "boolFloat64 b = (if b then 1 else 0)"

definition cs_addConstMetric ::
    "ComponentStatus \<Rightarrow> Desc \<Rightarrow> ValueType \<Rightarrow> float64 \<Rightarrow> string list \<Rightarrow> world \<Rightarrow> world option"
  where
  "cs_addConstMetric s d t v lv w =
     (case MustNewConstMetric d t v ([Name s] @ lv) of
        None \<Rightarrow> None
      | Some m \<Rightarrow> Some (w @ [Send m]))"

definition cs_addGauge ::
    "ComponentStatus \<Rightarrow> Desc \<Rightarrow> float64 \<Rightarrow> string list \<Rightarrow> world \<Rightarrow> world option" where
  "cs_addGauge s d v lv w = cs_addConstMetric s d GaugeValue v lv w"

text \<open>The loop over \<open>s.Conditions\<close>; the first healthy condition ends it (\<open>break\<close>).\<close>

fun conditions_loop :: "ComponentStatus \<Rightarrow> ComponentCondition list \<Rightarrow> world \<Rightarrow> world option"
  where
  "conditions_loop s [] w = Some w"
| "conditions_loop s (p # ps) w =
     (if Type p = ComponentHealthy
      then do {
        w1 \<leftarrow> cs_addGauge s descComponentStatusStatusHealthy
                (boolFloat64 (Status p = ConditionTrue)) [ConditionTrue] w;
        w2 \<leftarrow> cs_addGauge s descComponentStatusStatusHealthy
                (boolFloat64 (Status p = ConditionFalse)) [ConditionFalse] w1;
        cs_addGauge s descComponentStatusStatusHealthy
                (boolFloat64 (Status p = ConditionUnknown)) [ConditionUnknown] w2
      }
      else conditions_loop s ps w)"

definition collectComponentStatus :: "ComponentStatus \<Rightarrow> world \<Rightarrow> world option" where
  "collectComponentStatus s w = conditions_loop s (Conditions s) w"

fun cs_items_loop :: "ComponentStatus list \<Rightarrow> world \<Rightarrow> world option" where
  "cs_items_loop [] w = Some w"
| "cs_items_loop (s # ss) w =
     (case collectComponentStatus s w of
        None \<Rightarrow> None
      | Some w' \<Rightarrow> cs_items_loop ss w')"

text \<open>
  \<open>Collect\<close> calls \<open>csc.store.List()\<close> once; the pair it returned, the list and the
  error (\<open>None\<close> is \<open>nil\<close>), is the first argument.
\<close>

definition cs_Collect :: "ComponentStatus list \<times> string option \<Rightarrow> world \<Rightarrow> world option" where
  "cs_Collect r w =
     (case r of
        (csl, Some err) \<Rightarrow>
          Some (w @ [ScrapeErrorInc ''componentstatus'',
                     Errorf ''listing component status failed: %s'' err])
      | (csl, None) \<Rightarrow>
          (case cs_items_loop csl
                  (w @ [ResourcesObserve ''componentstatus''
                          (float64_of_int (int (length csl)))]) of
             None \<Rightarrow> None
           | Some w' \<Rightarrow>
               Some (w' @ [Infof ''collected %d componentstatuses'' (int (length csl))])))"

section \<open>The limitrange collector\<close>

definition descLimitRange :: Desc where
  "descLimitRange =
     NewDesc ''kube_limitrange'' ''Information about limit range.''
       [''limitrange'', ''namespace'', ''resource'', ''type'', ''constraint'']"

definition descLimitRangeCreated :: Desc where
  "descLimitRangeCreated =
     NewDesc ''kube_limitrange_created'' ''Unix creation timestamp''
       [''limitrange'', ''namespace'']"

definition lr_addGauge ::
    "LimitRange \<Rightarrow> Desc \<Rightarrow> float64 \<Rightarrow> string list \<Rightarrow> world \<Rightarrow> world option" where
  "lr_addGauge rq d v lv w =
     (case MustNewConstMetric d GaugeValue v ([Name rq, Namespace rq] @ lv) of
        None \<Rightarrow> None
      | Some m \<Rightarrow> Some (w @ [Send m]))"

text \<open>
  Go leaves the order in which \<open>range\<close> visits the keys of a map to the runtime, and the
  runtime varies it from one loop to the next. The order the runtime picked is an
  argument of the model: a list of keys for each of the five iterations over the maps of a
  \<open>LimitRangeItem\<close>. Such a list describes a run when it holds every key of the map
  once.
\<close>

record ItemOrder =
  ord_Min :: "string list"
  ord_Max :: "string list"
  ord_Default :: "string list"
  ord_DefaultRequest :: "string list"
  ord_MaxLimitRequestRatio :: "string list"

definition valid_keys :: "ResourceList \<Rightarrow> string list \<Rightarrow> bool" where
  "valid_keys m ks = (distinct ks \<and> set ks = dom m)"

definition valid_item_order :: "LimitRangeItem \<Rightarrow> ItemOrder \<Rightarrow> bool" where
  "valid_item_order it ord =
     (valid_keys (Item_Min it) (ord_Min ord) \<and>
      valid_keys (Item_Max it) (ord_Max ord) \<and>
      valid_keys (Item_Default it) (ord_Default ord) \<and>
      valid_keys (Item_DefaultRequest it) (ord_DefaultRequest ord) \<and>
      valid_keys (Item_MaxLimitRequestRatio it) (ord_MaxLimitRequestRatio ord))"

definition valid_orders :: "LimitRange \<Rightarrow> ItemOrder list \<Rightarrow> bool" where
  "valid_orders rq ords = list_all2 valid_item_order (Limits (Spec rq)) ords"

text \<open>
  One loop \<open>for resource, q := range m\<close> of \<open>collectLimitRange\<close>, visiting the keys in
  the order \<open>ks\<close>; \<open>ty\<close> is \<open>rawLimitRange.Type\<close> and \<open>c\<close> the constraint label. The
  runtime yields keys of the map only, so a list entry that is no key is passed over.
\<close>

fun range_ResourceList ::
    "LimitRange \<Rightarrow> string \<Rightarrow> string \<Rightarrow> ResourceList \<Rightarrow> string list \<Rightarrow> world \<Rightarrow> world option"
  where
  "range_ResourceList rq ty c m [] w = Some w"
| "range_ResourceList rq ty c m (resource # ks) w =
     (case m resource of
        None \<Rightarrow> range_ResourceList rq ty c m ks w
      | Some q \<Rightarrow>
          (case lr_addGauge rq descLimitRange
                  (f64_div (float64_of_int (MilliValue q)) 1000) [resource, ty, c] w of
             None \<Rightarrow> None
           | Some w' \<Rightarrow> range_ResourceList rq ty c m ks w'))"

definition collect_item :: "LimitRange \<Rightarrow> LimitRangeItem \<Rightarrow> ItemOrder \<Rightarrow> world \<Rightarrow> world option"
  where
  "collect_item rq rawLimitRange ord w = do {
     w1 \<leftarrow> range_ResourceList rq (Item_Type rawLimitRange) ''min''
             (Item_Min rawLimitRange) (ord_Min ord) w;
     w2 \<leftarrow> range_ResourceList rq (Item_Type rawLimitRange) ''max''
             (Item_Max rawLimitRange) (ord_Max ord) w1;
     w3 \<leftarrow> range_ResourceList rq (Item_Type rawLimitRange) ''default''
             (Item_Default rawLimitRange) (ord_Default ord) w2;
     w4 \<leftarrow> range_ResourceList rq (Item_Type rawLimitRange) ''defaultRequest''
             (Item_DefaultRequest rawLimitRange) (ord_DefaultRequest ord) w3;
     range_ResourceList rq (Item_Type rawLimitRange) ''maxLimitRequestRatio''
             (Item_MaxLimitRequestRatio rawLimitRange) (ord_MaxLimitRequestRatio ord) w4
   }"

text \<open>
  The loop over \<open>rq.Spec.Limits\<close>. A list of orders shorter than the list of items
  describes no run; the result is \<open>None\<close> there as well.
\<close>

fun limits_loop ::
    "LimitRange \<Rightarrow> LimitRangeItem list \<Rightarrow> ItemOrder list \<Rightarrow> world \<Rightarrow> world option" where
  "limits_loop rq [] ords w = Some w"
| "limits_loop rq (it # its) [] w = None"
| "limits_loop rq (it # its) (ord # ords) w =
     (case collect_item rq it ord w of
        None \<Rightarrow> None
      | Some w' \<Rightarrow> limits_loop rq its ords w')"

definition collectLimitRange :: "LimitRange \<Rightarrow> ItemOrder list \<Rightarrow> world \<Rightarrow> world option" where
  "collectLimitRange rq ords w =
     (case (if \<not> IsZero (CreationTimestamp rq)
            then lr_addGauge rq descLimitRangeCreated
                   (float64_of_int (Unix (CreationTimestamp rq))) [] w
            else Some w) of
        None \<Rightarrow> None
      | Some w' \<Rightarrow> limits_loop rq (Limits (Spec rq)) ords w')"

fun lr_items_loop :: "LimitRange list \<Rightarrow> ItemOrder list list \<Rightarrow> world \<Rightarrow> world option" where
  "lr_items_loop [] oss w = Some w"
| "lr_items_loop (rq # rqs) [] w = None"
| "lr_items_loop (rq # rqs) (ords # oss) w =
     (case collectLimitRange rq ords w of
        None \<Rightarrow> None
      | Some w' \<Rightarrow> lr_items_loop rqs oss w')"

definition lr_Collect ::
    "LimitRange list \<times> string option \<Rightarrow> ItemOrder list list \<Rightarrow> world \<Rightarrow> world option" where
  "lr_Collect r oss w =
     (case r of
        (items, Some err) \<Rightarrow>
          Some (w @ [ScrapeErrorInc ''limitrange'',
                     Errorf ''listing limit ranges failed: %s'' err])
      | (items, None) \<Rightarrow>
          (case lr_items_loop items oss
                  (w @ [ResourcesObserve ''limitrange''
                          (float64_of_int (int (length items)))]) of
             None \<Rightarrow> None
           | Some w' \<Rightarrow> Some (w' @ [Infof ''collected %d limitranges'' (int (length items))])))"

definition valid_run :: "LimitRange list \<Rightarrow> ItemOrder list list \<Rightarrow> bool" where
  "valid_run items oss = list_all2 valid_orders items oss"

section \<open>The listers built at registration\<close>

text \<open>
  The store of a shared informer holds \<open>interface{}\<close> values; \<open>Store_List\<close> is what
  \<open>GetStore().List()\<close> returns at the time of the call, which has no error result, and
  \<open>HasSynced\<close> tells whether the informer has synchronized. The type assertion
  \<open>rq.(*v1.LimitRange)\<close> panics on a value of another type (\<open>None\<close>).
\<close>

datatype object = LimitRangeObject LimitRange | ComponentStatusObject ComponentStatus

record SharedInformer =
  Store_List :: "object list"
  HasSynced :: bool

fun limitRange_append_loop :: "object list \<Rightarrow> LimitRange list \<Rightarrow> LimitRange list option" where
  "limitRange_append_loop [] ranges = Some ranges"
| "limitRange_append_loop (rq # rest) ranges =
     (case rq of
        LimitRangeObject r \<Rightarrow> limitRange_append_loop rest (ranges @ [r])
      | ComponentStatusObject _ \<Rightarrow> None)"

definition limitRangeLister :: "SharedInformer \<Rightarrow> (LimitRange list \<times> string option) option"
  where
  "limitRangeLister rqinf =
     (case limitRange_append_loop (Store_List rqinf) [] of
        None \<Rightarrow> None
      | Some ranges \<Rightarrow> Some (ranges, None))"

fun componentStatus_append_loop ::
    "object list \<Rightarrow> ComponentStatus list \<Rightarrow> ComponentStatus list option" where
  "componentStatus_append_loop [] componentStatuses = Some componentStatuses"
| "componentStatus_append_loop (m # rest) componentStatuses =
     (case m of
        ComponentStatusObject s \<Rightarrow> componentStatus_append_loop rest (componentStatuses @ [s])
      | LimitRangeObject _ \<Rightarrow> None)"

definition componentStatusLister ::
    "SharedInformer \<Rightarrow> (ComponentStatus list \<times> string option) option" where
  "componentStatusLister sinf =
     (case componentStatus_append_loop (Store_List sinf) [] of
        None \<Rightarrow> None
      | Some componentStatuses \<Rightarrow> Some (componentStatuses, None))"

section \<open>The samples of a run, as lists\<close>

text \<open>
  The functions of this section are not part of the collectors. They give the metrics a
  conversion routine sends as a list, and the lemmas below show that the routines send
  exactly these.
\<close>

definition status_sample :: "ComponentStatus \<Rightarrow> ComponentCondition \<Rightarrow> string \<Rightarrow> Metric" where
  "status_sample s p status =
     \<lparr>desc = descComponentStatusStatusHealthy, valType = GaugeValue,
      val = boolFloat64 (Status p = status), labelValues = [Name s, status]\<rparr>"

definition status_samples :: "ComponentStatus \<Rightarrow> ComponentCondition \<Rightarrow> Metric list" where
  "status_samples s p =
     [status_sample s p ConditionTrue, status_sample s p ConditionFalse,
      status_sample s p ConditionUnknown]"

definition healthy :: "ComponentCondition \<Rightarrow> bool" where
  "healthy p = (Type p = ComponentHealthy)"

definition cs_samples :: "ComponentStatus \<Rightarrow> Metric list" where
  "cs_samples s =
     (case find healthy (Conditions s) of
        None \<Rightarrow> []
      | Some p \<Rightarrow> status_samples s p)"

definition limit_sample :: "LimitRange \<Rightarrow> string \<Rightarrow> string \<Rightarrow> string \<Rightarrow> Quantity \<Rightarrow> Metric" where
  "limit_sample rq ty c resource q =
     \<lparr>desc = descLimitRange, valType = GaugeValue,
      val = f64_div (float64_of_int (MilliValue q)) 1000,
      labelValues = [Name rq, Namespace rq, resource, ty, c]\<rparr>"

definition constraint_samples ::
    "LimitRange \<Rightarrow> string \<Rightarrow> string \<Rightarrow> ResourceList \<Rightarrow> string list \<Rightarrow> Metric list" where
  "constraint_samples rq ty c m ks =
     List.map_filter (\<lambda>resource. map_option (limit_sample rq ty c resource) (m resource)) ks"

definition item_samples :: "LimitRange \<Rightarrow> LimitRangeItem \<Rightarrow> ItemOrder \<Rightarrow> Metric list" where
  "item_samples rq it ord =
     constraint_samples rq (Item_Type it) ''min'' (Item_Min it) (ord_Min ord) @
     constraint_samples rq (Item_Type it) ''max'' (Item_Max it) (ord_Max ord) @
     constraint_samples rq (Item_Type it) ''default'' (Item_Default it) (ord_Default ord) @
     constraint_samples rq (Item_Type it) ''defaultRequest'' (Item_DefaultRequest it)
       (ord_DefaultRequest ord) @
     constraint_samples rq (Item_Type it) ''maxLimitRequestRatio''
       (Item_MaxLimitRequestRatio it) (ord_MaxLimitRequestRatio ord)"

definition created_samples :: "LimitRange \<Rightarrow> Metric list" where
  "created_samples rq =
     (if IsZero (CreationTimestamp rq) then []
      else [\<lparr>desc = descLimitRangeCreated, valType = GaugeValue,
             val = float64_of_int (Unix (CreationTimestamp rq)),
             labelValues = [Name rq, Namespace rq]\<rparr>])"

definition limits_samples :: "LimitRange \<Rightarrow> LimitRangeItem list \<Rightarrow> ItemOrder list \<Rightarrow> Metric list"
  where
  "limits_samples rq its ords =
     concat (map (\<lambda>(it, ord). item_samples rq it ord) (zip its ords))"

definition lr_samples :: "LimitRange \<Rightarrow> ItemOrder list \<Rightarrow> Metric list" where
  "lr_samples rq ords = created_samples rq @ limits_samples rq (Limits (Spec rq)) ords"

definition run_samples :: "LimitRange list \<Rightarrow> ItemOrder list list \<Rightarrow> Metric list" where
  "run_samples items oss = concat (map (\<lambda>(rq, ords). lr_samples rq ords) (zip items oss))"

text \<open>The five maps of an item with the constraint label of their loop.\<close>

definition constraints :: "LimitRangeItem \<Rightarrow> (string \<times> ResourceList) list" where
  "constraints it =
     [(''min'', Item_Min it), (''max'', Item_Max it), (''default'', Item_Default it),
      (''defaultRequest'', Item_DefaultRequest it),
      (''maxLimitRequestRatio'', Item_MaxLimitRequestRatio it)]"

section \<open>Example objects\<close>

definition example_componentstatus :: ComponentStatus where
  "example_componentstatus =
     \<lparr>Name = ''etcd-0'', Namespace = [], CreationTimestamp = \<lparr>sec = 0, nsec = 0\<rparr>,
      Conditions = [\<lparr>Type = ''Healthy'', Status = ''True'', Message = ''ok'', Error = []\<rparr>]\<rparr>"

text \<open>
  A limit range created on 2017-07-28 00:00:00 UTC (Unix time 1501200000), with one item
  whose \<open>Min\<close> map has two keys.
\<close>

definition example_limitrange :: LimitRange where
  "example_limitrange =
     \<lparr>Name = ''limits'', Namespace = ''default'',
      CreationTimestamp = \<lparr>sec = 63636796800, nsec = 0\<rparr>,
      Spec = \<lparr>Limits =
        [\<lparr>Item_Type = ''Container'',
          Item_Max = [''cpu'' \<mapsto> \<lparr>MilliValue = 2000\<rparr>],
          Item_Min = [''cpu'' \<mapsto> \<lparr>MilliValue = 1500\<rparr>, ''memory'' \<mapsto> \<lparr>MilliValue = 1000\<rparr>],
          Item_Default = Map.empty,
          Item_DefaultRequest = Map.empty,
          Item_MaxLimitRequestRatio = Map.empty\<rparr>]\<rparr>\<rparr>"

definition example_order :: ItemOrder where
  "example_order =
     \<lparr>ord_Min = [''cpu'', ''memory''], ord_Max = [''cpu''], ord_Default = [],
      ord_DefaultRequest = [], ord_MaxLimitRequestRatio = []\<rparr>"

definition example_order' :: ItemOrder where
  "example_order' =
     \<lparr>ord_Min = [''memory'', ''cpu''], ord_Max = [''cpu''], ord_Default = [],
      ord_DefaultRequest = [], ord_MaxLimitRequestRatio = []\<rparr>"

text \<open>
  A limit range whose memory maximum is 9007199254740.999 bytes: the milli-value
  9007199254740999 lies above \<open>2\<^sup>5\<^sup>3\<close>.
\<close>

definition large_limitrange :: LimitRange where
  "large_limitrange =
     \<lparr>Name = ''limits'', Namespace = ''default'',
      CreationTimestamp = \<lparr>sec = 0, nsec = 0\<rparr>,
      Spec = \<lparr>Limits =
        [\<lparr>Item_Type = ''Container'',
          Item_Max = [''memory'' \<mapsto> \<lparr>MilliValue = 9007199254740999\<rparr>],
          Item_Min = Map.empty,
          Item_Default = Map.empty,
          Item_DefaultRequest = Map.empty,
          Item_MaxLimitRequestRatio = Map.empty\<rparr>]\<rparr>\<rparr>"

definition large_order :: ItemOrder where
  "large_order =
     \<lparr>ord_Min = [], ord_Max = [''memory''], ord_Default = [],
      ord_DefaultRequest = [], ord_MaxLimitRequestRatio = []\<rparr>"

section \<open>Reading the effects of a run\<close>

lemma sent_append: "sent (a @ b) = sent a @ sent b"
  by (induction a rule: sent.induct) simp_all

lemma sent_map_Send: "sent (map Send ms) = ms"
  by (induction ms) simp_all

lemma scrapeErrorTotal_append:
  "scrapeErrorTotal (a @ b) k = scrapeErrorTotal a k + scrapeErrorTotal b k"
  by (simp add: scrapeErrorTotal_def)

lemma resourcesPerScrape_append:
  "resourcesPerScrape (a @ b) k = resourcesPerScrape a k @ resourcesPerScrape b k"
  by (induction a k rule: resourcesPerScrape.induct) simp_all

section \<open>A failing lister\<close>

text \<open>
  C1. When \<open>List()\<close> returns a non-nil error, \<open>Collect\<close> of either collector returns
  normally; it has sent no metric, it has raised the scrape-error counter of its own
  resource kind by one and of no other kind, and it has recorded no
  resources-per-scrape observation.
\<close>

theorem Collect_error_path:
  "(\<exists>w'. cs_Collect (csl, Some err) w = Some w' \<and>
         sent w' = sent w \<and>
         (\<forall>k. scrapeErrorTotal w' k =
                scrapeErrorTotal w k + (if k = ''componentstatus'' then 1 else 0)) \<and>
         (\<forall>k. resourcesPerScrape w' k = resourcesPerScrape w k)) \<and>
   (\<exists>w'. lr_Collect (items, Some err) oss w = Some w' \<and>
         sent w' = sent w \<and>
         (\<forall>k. scrapeErrorTotal w' k =
                scrapeErrorTotal w k + (if k = ''limitrange'' then 1 else 0)) \<and>
         (\<forall>k. resourcesPerScrape w' k = resourcesPerScrape w k))"
  by (simp add: cs_Collect_def lr_Collect_def sent_append scrapeErrorTotal_append
      resourcesPerScrape_append scrapeErrorTotal_def)

section \<open>The componentstatus conversion routine\<close>

lemma cs_addGauge_healthy:
  "cs_addGauge s descComponentStatusStatusHealthy (boolFloat64 (Status p = l)) [l] w =
     Some (w @ [Send (status_sample s p l)])"
  by (simp add: cs_addGauge_def cs_addConstMetric_def MustNewConstMetric_def
      descComponentStatusStatusHealthy_def NewDesc_def status_sample_def)

lemma conditions_loop_eq:
  "conditions_loop s ps w =
     Some (w @ map Send (case find healthy ps of None \<Rightarrow> [] | Some p \<Rightarrow> status_samples s p))"
  by (induction ps) (simp_all add: cs_addGauge_healthy status_samples_def healthy_def)

lemma collectComponentStatus_eq:
  "collectComponentStatus s w = Some (w @ map Send (cs_samples s))"
  by (simp add: collectComponentStatus_def conditions_loop_eq cs_samples_def)

lemma cs_items_loop_eq:
  "cs_items_loop ss w = Some (w @ map Send (concat (map cs_samples ss)))"
  by (induction ss arbitrary: w) (simp_all add: collectComponentStatus_eq)

lemma length_cs_samples:
  "length (cs_samples s) = (if \<exists>p\<in>set (Conditions s). Type p = ComponentHealthy then 3 else 0)"
  by (auto simp: cs_samples_def status_samples_def healthy_def find_None_iff find_Some_iff
      split: option.splits)

lemma find_filter_same: "find P (filter P xs) = find P xs"
  by (induction xs) simp_all

text \<open>
  C10. \<open>collectComponentStatus\<close> never panics and sends three metrics when the object
  has a condition of type \<open>ComponentHealthy\<close>, none otherwise. The conditions of other
  types contribute nothing: the object stripped of them sends the same metrics.
\<close>

theorem collectComponentStatus_three_or_none:
  "\<exists>ms. collectComponentStatus s w = Some (w @ map Send ms) \<and>
        length ms = (if \<exists>p\<in>set (Conditions s). Type p = ComponentHealthy then 3 else 0) \<and>
        collectComponentStatus
          (s\<lparr>Conditions := filter (\<lambda>p. Type p = ComponentHealthy) (Conditions s)\<rparr>) w =
        Some (w @ map Send ms)"
proof -
  have "cs_samples (s\<lparr>Conditions := filter healthy (Conditions s)\<rparr>) = cs_samples s"
    by (simp add: cs_samples_def find_filter_same status_samples_def status_sample_def
        cong: option.case_cong)
  then have "collectComponentStatus (s\<lparr>Conditions := filter healthy (Conditions s)\<rparr>) w =
      Some (w @ map Send (cs_samples s))"
    by (simp add: collectComponentStatus_eq)
  moreover have "healthy = (\<lambda>p. Type p = ComponentHealthy)"
    by (simp add: healthy_def fun_eq_iff)
  ultimately have "collectComponentStatus s w = Some (w @ map Send (cs_samples s)) \<and>
      length (cs_samples s) =
        (if \<exists>p\<in>set (Conditions s). Type p = ComponentHealthy then 3 else 0) \<and>
      collectComponentStatus
        (s\<lparr>Conditions := filter (\<lambda>p. Type p = ComponentHealthy) (Conditions s)\<rparr>) w =
      Some (w @ map Send (cs_samples s))"
    using collectComponentStatus_eq [of s w] length_cs_samples [of s] by simp
  then show ?thesis by (rule exI)
qed

text \<open>
  C4. Let \<open>p\<close> be the condition of type \<open>ComponentHealthy\<close> of an object that the
  routine reaches, its first one, and let the status of \<open>p\<close> be one of the three
  condition statuses \<open>True\<close>, \<open>False\<close>, \<open>Unknown\<close>. The routine sends exactly three
  gauges of \<open>kube_componentstatus_status_healthy\<close>, labelled with the object's name and
  the status \<open>True\<close>, \<open>False\<close>, \<open>Unknown\<close> in this order. The one whose label is the
  status of \<open>p\<close> is 1 and the other two are 0, so exactly one of the three is 1 and
  exactly two are 0, whichever of the three statuses \<open>p\<close> has.
\<close>

theorem tri_state_expansion:
  assumes "find (\<lambda>p. Type p = ComponentHealthy) (Conditions s) = Some p"
    and "Status p \<in> {ConditionTrue, ConditionFalse, ConditionUnknown}"
  shows "\<exists>a b c. collectComponentStatus s w = Some (w @ [Send a, Send b, Send c]) \<and>
     desc a = descComponentStatusStatusHealthy \<and> desc b = descComponentStatusStatusHealthy \<and>
     desc c = descComponentStatusStatusHealthy \<and>
     valType a = GaugeValue \<and> valType b = GaugeValue \<and> valType c = GaugeValue \<and>
     labelValues a = [Name s, ''True''] \<and> labelValues b = [Name s, ''False''] \<and>
     labelValues c = [Name s, ''Unknown''] \<and>
     val a = (if Status p = ''True'' then 1 else 0) \<and>
     val b = (if Status p = ''False'' then 1 else 0) \<and>
     val c = (if Status p = ''Unknown'' then 1 else 0) \<and>
     count_list [val a, val b, val c] 1 = 1 \<and> count_list [val a, val b, val c] 0 = 2"
proof -
  have "find healthy (Conditions s) = Some p"
    using assms(1) by (simp add: healthy_def [abs_def])
  then have "collectComponentStatus s w =
      Some (w @ [Send (status_sample s p ConditionTrue), Send (status_sample s p ConditionFalse),
                 Send (status_sample s p ConditionUnknown)])"
    by (simp add: collectComponentStatus_eq cs_samples_def status_samples_def)
  moreover have "Status p = ''True'' \<or> Status p = ''False'' \<or> Status p = ''Unknown''"
    using assms(2) by (simp add: ConditionTrue_def ConditionFalse_def ConditionUnknown_def)
  ultimately show ?thesis
    by (intro exI [of _ "status_sample s p ConditionTrue"]
        exI [of _ "status_sample s p ConditionFalse"]
        exI [of _ "status_sample s p ConditionUnknown"])
      (auto simp: status_sample_def ConditionTrue_def ConditionFalse_def ConditionUnknown_def
        boolFloat64_def)
qed

theorem tri_state_expansion_witness:
  "find (\<lambda>p. Type p = ComponentHealthy)
     (Conditions \<lparr>Name = ''scheduler'', Namespace = [], CreationTimestamp = \<lparr>sec = 0, nsec = 0\<rparr>,
        Conditions = [\<lparr>Type = ''Healthy'', Status = ''Unknown'', Message = ''ok'', Error = []\<rparr>]\<rparr>) =
     Some \<lparr>Type = ''Healthy'', Status = ''Unknown'', Message = ''ok'', Error = []\<rparr> \<and>
   Status \<lparr>Type = ''Healthy'', Status = ''Unknown'', Message = ''ok'', Error = []\<rparr>
     \<in> {ConditionTrue, ConditionFalse, ConditionUnknown} \<and>
   (\<exists>a b c. collectComponentStatus
       \<lparr>Name = ''scheduler'', Namespace = [], CreationTimestamp = \<lparr>sec = 0, nsec = 0\<rparr>,
        Conditions = [\<lparr>Type = ''Healthy'', Status = ''Unknown'', Message = ''ok'', Error = []\<rparr>]\<rparr> [] =
       Some [Send a, Send b, Send c] \<and>
     labelValues a = [''scheduler'', ''True''] \<and> labelValues b = [''scheduler'', ''False''] \<and>
     labelValues c = [''scheduler'', ''Unknown''] \<and>
     val a = 0 \<and> val b = 0 \<and> val c = 1)"
proof -
  have h: "find (\<lambda>p. Type p = ComponentHealthy)
     (Conditions \<lparr>Name = ''scheduler'', Namespace = [], CreationTimestamp = \<lparr>sec = 0, nsec = 0\<rparr>,
        Conditions = [\<lparr>Type = ''Healthy'', Status = ''Unknown'', Message = ''ok'', Error = []\<rparr>]\<rparr>) =
     Some \<lparr>Type = ''Healthy'', Status = ''Unknown'', Message = ''ok'', Error = []\<rparr>"
    by (simp add: ComponentHealthy_def)
  have t: "Status \<lparr>Type = ''Healthy'', Status = ''Unknown'', Message = ''ok'', Error = []\<rparr>
     \<in> {ConditionTrue, ConditionFalse, ConditionUnknown}"
    by (simp add: ConditionUnknown_def)
  show ?thesis
    using h t tri_state_expansion [OF h t, of "[]"] by auto
qed

section \<open>A scrape of the component statuses\<close>

lemma find_first_only:
  "find P (case find P xs of None \<Rightarrow> [] | Some p \<Rightarrow> [p]) = find P xs"
  by (induction xs) auto

lemma length_concat_cs_samples:
  "length (concat (map cs_samples ss)) =
     3 * length (filter (\<lambda>s. \<exists>p\<in>set (Conditions s). Type p = ComponentHealthy) ss)"
  by (induction ss) (simp_all add: length_cs_samples)

lemma cs_Collect_ok:
  "cs_Collect (csl, None) w =
     Some (w @ [ResourcesObserve ''componentstatus'' (float64_of_int (int (length csl)))] @
           map Send (concat (map cs_samples csl)) @
           [Infof ''collected %d componentstatuses'' (int (length csl))])"
  by (simp add: cs_Collect_def cs_items_loop_eq)

text \<open>
  C5, as stated, fails: the \<open>break\<close> ends the loop over the conditions of one object, not
  the loop over the objects. A snapshot of two objects with a healthy condition each
  yields two sets of status samples in one scrape.
\<close>

theorem two_objects_two_expansions:
  "cs_Collect
     ([\<lparr>Name = ''etcd-0'', Namespace = [], CreationTimestamp = \<lparr>sec = 0, nsec = 0\<rparr>,
        Conditions = [\<lparr>Type = ''Healthy'', Status = ''True'', Message = [], Error = []\<rparr>]\<rparr>,
       \<lparr>Name = ''scheduler'', Namespace = [], CreationTimestamp = \<lparr>sec = 0, nsec = 0\<rparr>,
        Conditions = [\<lparr>Type = ''Healthy'', Status = ''False'', Message = [], Error = []\<rparr>]\<rparr>],
      None) [] =
   Some [ResourcesObserve ''componentstatus'' 2,
         Send \<lparr>desc = descComponentStatusStatusHealthy, valType = GaugeValue, val = 1,
                labelValues = [''etcd-0'', ''True'']\<rparr>,
         Send \<lparr>desc = descComponentStatusStatusHealthy, valType = GaugeValue, val = 0,
                labelValues = [''etcd-0'', ''False'']\<rparr>,
         Send \<lparr>desc = descComponentStatusStatusHealthy, valType = GaugeValue, val = 0,
                labelValues = [''etcd-0'', ''Unknown'']\<rparr>,
         Send \<lparr>desc = descComponentStatusStatusHealthy, valType = GaugeValue, val = 0,
                labelValues = [''scheduler'', ''True'']\<rparr>,
         Send \<lparr>desc = descComponentStatusStatusHealthy, valType = GaugeValue, val = 1,
                labelValues = [''scheduler'', ''False'']\<rparr>,
         Send \<lparr>desc = descComponentStatusStatusHealthy, valType = GaugeValue, val = 0,
                labelValues = [''scheduler'', ''Unknown'']\<rparr>,
         Infof ''collected %d componentstatuses'' 2]"
proof -
  have "float64_of_int 2 = 2" by code_simp
  then show ?thesis
    by (simp add: cs_Collect_def collectComponentStatus_def cs_addGauge_def
        cs_addConstMetric_def MustNewConstMetric_def descComponentStatusStatusHealthy_def
        NewDesc_def ComponentHealthy_def ConditionTrue_def ConditionFalse_def
        ConditionUnknown_def boolFloat64_def)
qed

text \<open>
  C5, amended. The expansion is once per object: an object sends the samples of its
  first condition of type \<open>ComponentHealthy\<close> and of no other condition, and a scrape
  sends the samples of every object of the snapshot, in the order of the snapshot, three
  for each object that has such a condition.
\<close>

theorem one_expansion_per_object:
  "(\<exists>w'. cs_Collect (csl, None) w = Some w' \<and>
         sent w' = sent w @ concat (map cs_samples csl) \<and>
         length (sent w') = length (sent w) +
           3 * length (filter (\<lambda>s. \<exists>p\<in>set (Conditions s). Type p = ComponentHealthy) csl)) \<and>
   collectComponentStatus s w =
     collectComponentStatus
       (s\<lparr>Conditions := (case find (\<lambda>p. Type p = ComponentHealthy) (Conditions s) of
                            None \<Rightarrow> [] | Some p \<Rightarrow> [p])\<rparr>) w"
proof -
  have eq: "healthy = (\<lambda>p. Type p = ComponentHealthy)"
    by (simp add: healthy_def fun_eq_iff)
  have "cs_samples (s\<lparr>Conditions := (case find healthy (Conditions s) of
                            None \<Rightarrow> [] | Some p \<Rightarrow> [p])\<rparr>) = cs_samples s"
    by (simp add: cs_samples_def status_samples_def status_sample_def find_first_only
        cong: option.case_cong)
  then have "collectComponentStatus s w =
     collectComponentStatus
       (s\<lparr>Conditions := (case find healthy (Conditions s) of None \<Rightarrow> [] | Some p \<Rightarrow> [p])\<rparr>) w"
    by (simp add: collectComponentStatus_eq)
  then show ?thesis
    unfolding eq
    by (simp add: cs_Collect_ok sent_append sent_map_Send length_concat_cs_samples)
qed

section \<open>The listers\<close>

lemma limitRange_append_loop_eq:
  "limitRange_append_loop (map LimitRangeObject rqs) acc = Some (acc @ rqs)"
  by (induction rqs arbitrary: acc) simp_all

lemma componentStatus_append_loop_eq:
  "componentStatus_append_loop (map ComponentStatusObject ss) acc = Some (acc @ ss)"
  by (induction ss arbitrary: acc) simp_all

lemma limitRange_append_loop_Some:
  "limitRange_append_loop os acc = Some rs \<Longrightarrow>
     map LimitRangeObject rs = map LimitRangeObject acc @ os"
  by (induction os arbitrary: acc) (auto split: object.splits)

lemma componentStatus_append_loop_Some:
  "componentStatus_append_loop os acc = Some rs \<Longrightarrow>
     map ComponentStatusObject rs = map ComponentStatusObject acc @ os"
  by (induction os arbitrary: acc) (auto split: object.splits)

lemma limitRange_append_loop_None:
  "limitRange_append_loop os acc = None \<Longrightarrow> \<exists>s. ComponentStatusObject s \<in> set os"
  by (induction os arbitrary: acc) (auto split: object.splits)

lemma componentStatus_append_loop_None:
  "componentStatus_append_loop os acc = None \<Longrightarrow> \<exists>r. LimitRangeObject r \<in> set os"
  by (induction os arbitrary: acc) (auto split: object.splits)

text \<open>
  C2, as stated, fails: the listers built at registration return a nil error from an
  informer that has not synchronized, here with an empty store.
\<close>

theorem lister_nil_error_when_unsynced:
  "limitRangeLister \<lparr>Store_List = [], HasSynced = False\<rparr> = Some ([], None) \<and>
   componentStatusLister \<lparr>Store_List = [], HasSynced = False\<rparr> = Some ([], None)"
  by (simp add: limitRangeLister_def componentStatusLister_def)

text \<open>
  C2, amended. The listers built at registration never return an error. Whether or not
  the informer has synchronized, a lister returns the objects of the informer's store
  at the time of the call, all of them and in the store's order, with a nil error; it
  does not return at all (it panics) only when the store holds an object of another type.
\<close>

theorem lister_returns_store_contents:
  "limitRangeLister \<lparr>Store_List = map LimitRangeObject rqs, HasSynced = b\<rparr> =
     Some (rqs, None) \<and>
   componentStatusLister \<lparr>Store_List = map ComponentStatusObject ss, HasSynced = b\<rparr> =
     Some (ss, None) \<and>
   (case limitRangeLister rqinf of
      None \<Rightarrow> \<exists>s. ComponentStatusObject s \<in> set (Store_List rqinf)
    | Some (ranges, err) \<Rightarrow> err = None \<and> map LimitRangeObject ranges = Store_List rqinf) \<and>
   (case componentStatusLister sinf of
      None \<Rightarrow> \<exists>r. LimitRangeObject r \<in> set (Store_List sinf)
    | Some (componentStatuses, err) \<Rightarrow>
        err = None \<and> map ComponentStatusObject componentStatuses = Store_List sinf)"
  using limitRange_append_loop_Some [of "Store_List rqinf" "[]"]
    componentStatus_append_loop_Some [of "Store_List sinf" "[]"]
    limitRange_append_loop_None [of "Store_List rqinf" "[]"]
    componentStatus_append_loop_None [of "Store_List sinf" "[]"]
  by (simp add: limitRangeLister_def componentStatusLister_def limitRange_append_loop_eq
      componentStatus_append_loop_eq split: option.splits)

section \<open>The limitrange conversion routine\<close>

lemma lr_addGauge_limit:
  "lr_addGauge rq descLimitRange (f64_div (float64_of_int (MilliValue q)) 1000)
     [resource, ty, c] w = Some (w @ [Send (limit_sample rq ty c resource q)])"
  by (simp add: lr_addGauge_def MustNewConstMetric_def descLimitRange_def NewDesc_def
      limit_sample_def)

lemma range_ResourceList_eq:
  "range_ResourceList rq ty c m ks w = Some (w @ map Send (constraint_samples rq ty c m ks))"
proof (induction ks arbitrary: w)
  case Nil
  then show ?case by (simp add: constraint_samples_def map_filter_simps)
next
  case (Cons k ks)
  then show ?case
    by (cases "m k") (simp_all add: constraint_samples_def map_filter_simps lr_addGauge_limit)
qed

lemma collect_item_eq:
  "collect_item rq it ord w = Some (w @ map Send (item_samples rq it ord))"
  by (simp add: collect_item_def range_ResourceList_eq item_samples_def)

lemma limits_loop_eq:
  "limits_loop rq its ords w =
     (if length ords < length its then None
      else Some (w @ map Send (limits_samples rq its ords)))"
  by (induction rq its ords w rule: limits_loop.induct)
    (simp_all add: limits_samples_def collect_item_eq)

lemma collectLimitRange_eq:
  "collectLimitRange rq ords w =
     (if length ords < length (Limits (Spec rq)) then None
      else Some (w @ map Send (lr_samples rq ords)))"
  by (simp add: collectLimitRange_def limits_loop_eq lr_samples_def created_samples_def
      lr_addGauge_def MustNewConstMetric_def descLimitRangeCreated_def NewDesc_def)

lemma valid_orders_length: "valid_orders rq ords \<Longrightarrow> length ords = length (Limits (Spec rq))"
  by (simp add: valid_orders_def list_all2_lengthD)

lemma collectLimitRange_valid:
  "valid_orders rq ords \<Longrightarrow> collectLimitRange rq ords w = Some (w @ map Send (lr_samples rq ords))"
  by (simp add: collectLimitRange_eq valid_orders_length)

lemma lr_items_loop_valid:
  "valid_run items oss \<Longrightarrow>
     lr_items_loop items oss w = Some (w @ map Send (run_samples items oss))"
  unfolding valid_run_def
proof (induction items oss arbitrary: w rule: list_all2_induct)
  case Nil
  then show ?case by (simp add: run_samples_def)
next
  case (Cons rq items ords oss)
  then show ?case by (simp add: run_samples_def collectLimitRange_valid)
qed

lemma lr_Collect_ok:
  "valid_run items oss \<Longrightarrow>
   lr_Collect (items, None) oss w =
     Some (w @ [ResourcesObserve ''limitrange'' (float64_of_int (int (length items)))] @
           map Send (run_samples items oss) @
           [Infof ''collected %d limitranges'' (int (length items))])"
  by (simp add: lr_Collect_def lr_items_loop_valid)

section \<open>Rounding to float64\<close>

lemma round_half_even_of_int: "round_half_even (of_int n) = n"
  by (simp add: round_half_even_def)

lemma round_half_even_error: "\<bar>of_int (round_half_even y) - y\<bar> \<le> 1 / 2"
proof -
  have "of_int \<lfloor>y\<rfloor> \<le> y" "y < of_int \<lfloor>y\<rfloor> + 1"
    by linarith+
  then show ?thesis
    by (auto simp: round_half_even_def Let_def abs_le_iff)
qed

lemma ilog2_lower:
  assumes "0 < x"
  shows "2 powi ilog2 x \<le> x"
proof -
  obtain p q where pq: "quotient_of x = (p, q)"
    by (cases "quotient_of x")
  then have q: "0 < q" and x: "x = of_int p / of_int q"
    by (simp_all add: quotient_of_denom_pos quotient_of_div)
  with assms have p: "0 < p"
    by (simp add: zero_less_divide_iff)
  define d where "d = bitlen p - bitlen q"
  show ?thesis
  proof (cases "2 powi d \<le> x")
    case True
    then show ?thesis by (simp add: ilog2_def pq d_def)
  next
    case False
    have bp: "1 \<le> bitlen p" and bq: "1 \<le> bitlen q"
      using p q bitlen_eq_zero_iff [of p] bitlen_eq_zero_iff [of q]
        bitlen_nonneg [of p] bitlen_nonneg [of q] by linarith+
    have "(2::int) ^ nat (bitlen p - 1) \<le> p" and "q < 2 ^ nat (bitlen q)"
      using bitlen_bounds [OF p] bitlen_bounds [OF q] by simp_all
    then have lo: "(2::rat) ^ nat (bitlen p - 1) \<le> of_int p"
      and hi: "(of_int q :: rat) \<le> 2 ^ nat (bitlen q)"
      by (metis of_int_le_iff of_int_numeral of_int_power,
          metis less_imp_le of_int_le_iff of_int_numeral of_int_power)
    have "d - 1 = (bitlen p - 1) - bitlen q"
      by (simp add: d_def)
    then have "(2::rat) powi (d - 1) = 2 powi ((bitlen p - 1) - bitlen q)"
      by (rule arg_cong)
    also have "\<dots> = 2 powi (bitlen p - 1) / 2 powi bitlen q"
      by (rule power_int_diff) simp
    also have "\<dots> = 2 ^ nat (bitlen p - 1) / 2 ^ nat (bitlen q)"
      using bp bq by (simp add: power_int_def)
    also have "\<dots> \<le> of_int p / of_int q"
      using lo hi q p by (intro frac_le) simp_all
    finally have "2 powi (d - 1) \<le> x"
      by (simp only: x)
    then show ?thesis
      using False by (simp add: ilog2_def pq d_def)
  qed
qed

lemma f64_round_error: "\<bar>f64_round x - x\<bar> \<le> \<bar>x\<bar> / 2 ^ 53"
proof (cases "x = 0")
  case True
  then show ?thesis by (simp add: f64_round_def)
next
  case False
  define e where "e = ilog2 \<bar>x\<bar> - 52"
  define u :: rat where "u = 2 powi e"
  have u: "0 < u" by (simp add: u_def)
  have "u * 2 ^ 52 = 2 powi (e + 52)"
    by (simp add: u_def power_int_add)
  also have "\<dots> \<le> \<bar>x\<bar>"
    using ilog2_lower [of "\<bar>x\<bar>"] False by (simp add: e_def)
  finally have ux: "u * 2 ^ 52 \<le> \<bar>x\<bar>" .
  have "f64_round x - x = (of_int (round_half_even (x / u)) - x / u) * u"
    using False u by (simp add: f64_round_def e_def u_def Let_def algebra_simps)
  then have "\<bar>f64_round x - x\<bar> = \<bar>of_int (round_half_even (x / u)) - x / u\<bar> * u"
    using u by (simp add: abs_mult)
  also have "\<dots> \<le> 1 / 2 * u"
    using round_half_even_error [of "x / u"] u by (intro mult_right_mono) simp_all
  also have "\<dots> \<le> \<bar>x\<bar> / 2 ^ 53"
    using ux by simp
  finally show ?thesis .
qed

lemma f64_round_of_int:
  assumes "\<bar>i\<bar> \<le> 2 ^ 53"
  shows "f64_round (of_int i) = of_int i"
proof (cases "i = 0")
  case True
  then show ?thesis by (simp add: f64_round_def)
next
  case False
  define e where "e = ilog2 \<bar>of_int i\<bar> - 52"
  have "(2::rat) powi (e + 52) \<le> \<bar>of_int i\<bar>"
    using ilog2_lower [of "\<bar>of_int i\<bar>"] False by (simp add: e_def)
  also have "\<dots> \<le> 2 ^ 53"
    using assms by (metis of_int_abs of_int_le_iff of_int_numeral of_int_power)
  finally have le53: "(2::rat) powi (e + 52) \<le> 2 powi 53" by simp
  have "e + 52 \<le> 53"
    by (rule power_int_le_imp_le_exp [OF _ le53]) simp_all
  then have e1: "e \<le> 1" by simp
  have "\<exists>n. (of_int i :: rat) / 2 powi e = of_int n"
  proof (cases "e \<le> 0")
    case True
    then have "(of_int i :: rat) / 2 powi e = of_int (i * 2 ^ nat (- e))"
      by (simp add: power_int_def field_simps)
    then show ?thesis ..
  next
    case False
    with e1 have e: "e = 1" by simp
    then have "(2::rat) ^ 53 \<le> \<bar>of_int i\<bar>"
      using \<open>2 powi (e + 52) \<le> \<bar>of_int i\<bar>\<close> by simp
    then have "2 ^ 53 \<le> \<bar>i\<bar>"
      by (metis of_int_abs of_int_le_iff of_int_numeral of_int_power)
    with assms have "\<bar>i\<bar> = 2 ^ 53" by simp
    then have "i = 2 * 2 ^ 52 \<or> i = 2 * (- (2 ^ 52))" by (auto simp: abs_if split: if_splits)
    then have "even i" by auto
    then obtain k where "i = 2 * k" by (auto elim: evenE)
    then have "(of_int i :: rat) / 2 powi e = of_int k" by (simp add: e)
    then show ?thesis ..
  qed
  then obtain n where n: "(of_int i :: rat) / 2 powi e = of_int n" ..
  then have "of_int n * 2 powi e = (of_int i :: rat)"
    by (simp add: field_simps)
  then show ?thesis
    using False n by (simp add: f64_round_def e_def [symmetric] round_half_even_of_int)
qed

lemma float64_of_int_exact: "\<bar>i\<bar> \<le> 2 ^ 53 \<Longrightarrow> float64_of_int i = of_int i"
  by (simp add: float64_of_int_def f64_round_of_int)

section \<open>The samples of a limit range\<close>

lemma constraint_samples_map:
  "constraint_samples rq ty c m ks =
     map (\<lambda>r. limit_sample rq ty c r (the (m r))) (filter (\<lambda>r. m r \<noteq> None) ks)"
  by (induction ks) (auto simp: constraint_samples_def map_filter_simps)

lemma constraint_samples_set:
  "set (constraint_samples rq ty c m ks) =
     {limit_sample rq ty c r q | r q. r \<in> set ks \<and> m r = Some q}"
  by (force simp: constraint_samples_map image_iff)

lemma item_samples_limit:
  "x \<in> set (item_samples rq it ord) \<Longrightarrow> \<exists>c r q. x = limit_sample rq (Item_Type it) c r q"
  by (auto simp: item_samples_def constraint_samples_set)

lemma limits_samples_limit:
  "x \<in> set (limits_samples rq its ords) \<Longrightarrow> \<exists>ty c r q. x = limit_sample rq ty c r q"
  by (auto simp: limits_samples_def dest!: item_samples_limit)

lemma lr_samples_cases:
  assumes "x \<in> set (lr_samples rq ords)"
  shows "x \<in> set (created_samples rq) \<or> (\<exists>ty c r q. x = limit_sample rq ty c r q)"
  using assms limits_samples_limit [of x rq] by (auto simp: lr_samples_def)

lemma desc_neq: "descLimitRange \<noteq> descLimitRangeCreated"
  by (simp add: descLimitRange_def descLimitRangeCreated_def NewDesc_def)

lemma lr_samples_arity:
  assumes "x \<in> set (lr_samples rq ords)"
  shows "length (labelValues x) = length (variableLabels (desc x)) \<and>
         (desc x = descLimitRange \<and> length (labelValues x) = 5 \<or>
          desc x = descLimitRangeCreated \<and> length (labelValues x) = 2)"
  using lr_samples_cases [OF assms]
  by (auto simp: created_samples_def limit_sample_def descLimitRange_def
      descLimitRangeCreated_def NewDesc_def split: if_splits)

lemma cs_samples_arity:
  assumes "x \<in> set (cs_samples s)"
  shows "desc x = descComponentStatusStatusHealthy \<and> length (labelValues x) = 2 \<and>
         length (variableLabels (desc x)) = 2"
  using assms
  by (auto simp: cs_samples_def status_samples_def status_sample_def
      descComponentStatusStatusHealthy_def NewDesc_def split: option.splits)

text \<open>
  C3. Every metric a conversion routine sends has as many label values as its
  descriptor has label names: two for \<open>kube_componentstatus_status_healthy\<close>, five for
  \<open>kube_limitrange\<close>, two for \<open>kube_limitrange_created\<close>; no other descriptor occurs, and
  the routines never panic. For a limit range this holds in every run, that is, for
  every order in which the maps are visited.
\<close>

theorem label_arity:
  "(\<exists>ms. collectComponentStatus s w = Some (w @ map Send ms) \<and>
         (\<forall>m\<in>set ms. desc m = descComponentStatusStatusHealthy \<and>
                      length (labelValues m) = 2 \<and> length (variableLabels (desc m)) = 2)) \<and>
   (valid_orders rq ords \<longrightarrow>
      (\<exists>ms. collectLimitRange rq ords w = Some (w @ map Send ms) \<and>
            (\<forall>m\<in>set ms. length (labelValues m) = length (variableLabels (desc m)) \<and>
               (desc m = descLimitRange \<and> length (labelValues m) = 5 \<or>
                desc m = descLimitRangeCreated \<and> length (labelValues m) = 2))))"
proof (intro conjI impI)
  show "\<exists>ms. collectComponentStatus s w = Some (w @ map Send ms) \<and>
         (\<forall>m\<in>set ms. desc m = descComponentStatusStatusHealthy \<and>
                      length (labelValues m) = 2 \<and> length (variableLabels (desc m)) = 2)"
    using collectComponentStatus_eq [of s w] cs_samples_arity [of _ s] by blast
next
  assume "valid_orders rq ords"
  then have "collectLimitRange rq ords w = Some (w @ map Send (lr_samples rq ords))"
    by (rule collectLimitRange_valid)
  then show "\<exists>ms. collectLimitRange rq ords w = Some (w @ map Send ms) \<and>
            (\<forall>m\<in>set ms. length (labelValues m) = length (variableLabels (desc m)) \<and>
               (desc m = descLimitRange \<and> length (labelValues m) = 5 \<or>
                desc m = descLimitRangeCreated \<and> length (labelValues m) = 2))"
    using lr_samples_arity [of _ rq ords] by blast
qed

lemma example_valid: "valid_orders example_limitrange [example_order]"
  by (auto simp: valid_orders_def valid_item_order_def valid_keys_def example_limitrange_def
      example_order_def)

lemma example_valid': "valid_orders example_limitrange [example_order']"
  by (auto simp: valid_orders_def valid_item_order_def valid_keys_def example_limitrange_def
      example_order'_def)

theorem label_arity_witness:
  "valid_orders example_limitrange [example_order] \<and>
   (\<exists>ms. collectLimitRange example_limitrange [example_order] [] = Some (map Send ms) \<and>
         length ms = 4 \<and>
         (\<forall>m\<in>set ms. length (labelValues m) = length (variableLabels (desc m)) \<and>
               (desc m = descLimitRange \<and> length (labelValues m) = 5 \<or>
                desc m = descLimitRangeCreated \<and> length (labelValues m) = 2)))"
proof -
  have len: "length (lr_samples example_limitrange [example_order]) = 4"
    by (simp add: lr_samples_def created_samples_def limits_samples_def item_samples_def
        constraint_samples_def map_filter_simps example_limitrange_def example_order_def
        IsZero_def)
  from label_arity [of example_componentstatus "[]" example_limitrange "[example_order]"]
    example_valid
  obtain ms where ms: "collectLimitRange example_limitrange [example_order] [] = Some (map Send ms)"
    "\<forall>m\<in>set ms. length (labelValues m) = length (variableLabels (desc m)) \<and>
               (desc m = descLimitRange \<and> length (labelValues m) = 5 \<or>
                desc m = descLimitRangeCreated \<and> length (labelValues m) = 2)"
    by auto
  from ms(1) have "map Send ms = map Send (lr_samples example_limitrange [example_order])"
    by (simp add: collectLimitRange_valid [OF example_valid])
  then have "length ms = 4"
    using len by (metis length_map)
  with ms example_valid show ?thesis by blast
qed

section \<open>The creation timestamp\<close>

lemma filter_created_limits:
  "filter (\<lambda>m. desc m = descLimitRangeCreated) (limits_samples rq its ords) = []"
proof -
  have "desc x \<noteq> descLimitRangeCreated" if "x \<in> set (limits_samples rq its ords)" for x
    using limits_samples_limit [OF that] desc_neq by (auto simp: limit_sample_def)
  then show ?thesis by (simp add: filter_empty_conv)
qed

text \<open>
  C6. In every run of \<open>collectLimitRange\<close> on an object with creation timestamp \<open>T\<close>: no
  \<open>kube_limitrange_created\<close> sample is sent when \<open>T\<close> is the zero time, and exactly one
  when it is not, a gauge labelled with the name and the namespace of the object whose
  value is \<open>float64(T.Unix())\<close>. The conversion is exact, so the value is the number of
  Unix seconds of \<open>T\<close> itself, for every \<open>T\<close> within \<open>2\<^sup>5\<^sup>3\<close> seconds of 1970.
\<close>

theorem created_sample:
  assumes "valid_orders rq ords"
  shows "\<exists>ms. collectLimitRange rq ords w = Some (w @ map Send ms) \<and>
     filter (\<lambda>m. desc m = descLimitRangeCreated) ms =
       (if IsZero (CreationTimestamp rq) then []
        else [\<lparr>desc = descLimitRangeCreated, valType = GaugeValue,
               val = float64_of_int (Unix (CreationTimestamp rq)),
               labelValues = [Name rq, Namespace rq]\<rparr>]) \<and>
     (\<bar>Unix (CreationTimestamp rq)\<bar> \<le> 2 ^ 53 \<longrightarrow>
        float64_of_int (Unix (CreationTimestamp rq)) = of_int (Unix (CreationTimestamp rq)))"
proof -
  have "filter (\<lambda>m. desc m = descLimitRangeCreated) (lr_samples rq ords) =
       (if IsZero (CreationTimestamp rq) then []
        else [\<lparr>desc = descLimitRangeCreated, valType = GaugeValue,
               val = float64_of_int (Unix (CreationTimestamp rq)),
               labelValues = [Name rq, Namespace rq]\<rparr>])"
    by (simp add: lr_samples_def filter_created_limits created_samples_def)
  then show ?thesis
    using collectLimitRange_valid [OF assms, of w] float64_of_int_exact by blast
qed

theorem created_sample_witness:
  "valid_orders example_limitrange [example_order] \<and>
   \<not> IsZero (CreationTimestamp example_limitrange) \<and>
   \<bar>Unix (CreationTimestamp example_limitrange)\<bar> \<le> 2 ^ 53 \<and>
   (\<exists>ms. collectLimitRange example_limitrange [example_order] [] = Some (map Send ms) \<and>
      filter (\<lambda>m. desc m = descLimitRangeCreated) ms =
        [\<lparr>desc = descLimitRangeCreated, valType = GaugeValue, val = 1501200000,
          labelValues = [''limits'', ''default'']\<rparr>])"
proof -
  have z: "\<not> IsZero (CreationTimestamp example_limitrange)"
    by (simp add: IsZero_def example_limitrange_def)
  have u: "Unix (CreationTimestamp example_limitrange) = 1501200000"
    by (simp add: Unix_def unixToInternal_def example_limitrange_def)
  have n: "Name example_limitrange = ''limits''" "Namespace example_limitrange = ''default''"
    by (simp_all add: example_limitrange_def)
  show ?thesis
    using created_sample [OF example_valid, of "[]"] z example_valid
    by (auto simp: u n)
qed

section \<open>A successful scrape\<close>

text \<open>
  C8. When \<open>List()\<close> returns \<open>N\<close> objects and a nil error, \<open>Collect\<close> records
  \<open>float64(N)\<close> as one resources-per-scrape observation of its kind, which is \<open>N\<close> itself
  for every \<open>N\<close> up to \<open>2\<^sup>5\<^sup>3\<close>, and it does so first: the loop over the objects starts
  from the state that holds the observation, all metrics of the scrape are sent after it,
  and the log line follows them.
\<close>

lemma resourcesPerScrape_map_Send: "resourcesPerScrape (map Send ms) k = []"
  by (induction ms) simp_all

theorem Collect_observes_count:
  "(\<exists>ms w'.
      cs_items_loop csl
         (w @ [ResourcesObserve ''componentstatus'' (float64_of_int (int (length csl)))]) =
       Some (w @ ResourcesObserve ''componentstatus'' (float64_of_int (int (length csl))) #
             map Send ms) \<and>
      cs_Collect (csl, None) w = Some w' \<and>
      w' = w @ ResourcesObserve ''componentstatus'' (float64_of_int (int (length csl))) #
             map Send ms @ [Infof ''collected %d componentstatuses'' (int (length csl))] \<and>
      resourcesPerScrape w' ''componentstatus'' =
        resourcesPerScrape w ''componentstatus'' @ [float64_of_int (int (length csl))]) \<and>
   (valid_run items oss \<longrightarrow>
     (\<exists>ms w'.
        lr_items_loop items oss
           (w @ [ResourcesObserve ''limitrange'' (float64_of_int (int (length items)))]) =
         Some (w @ ResourcesObserve ''limitrange'' (float64_of_int (int (length items))) #
               map Send ms) \<and>
        lr_Collect (items, None) oss w = Some w' \<and>
        w' = w @ ResourcesObserve ''limitrange'' (float64_of_int (int (length items))) #
               map Send ms @ [Infof ''collected %d limitranges'' (int (length items))] \<and>
        resourcesPerScrape w' ''limitrange'' =
          resourcesPerScrape w ''limitrange'' @ [float64_of_int (int (length items))])) \<and>
   (n \<le> 2 ^ 53 \<longrightarrow> float64_of_int (int n) = of_nat n)"
proof (intro conjI impI)
  show "\<exists>ms w'.
      cs_items_loop csl
         (w @ [ResourcesObserve ''componentstatus'' (float64_of_int (int (length csl)))]) =
       Some (w @ ResourcesObserve ''componentstatus'' (float64_of_int (int (length csl))) #
             map Send ms) \<and>
      cs_Collect (csl, None) w = Some w' \<and>
      w' = w @ ResourcesObserve ''componentstatus'' (float64_of_int (int (length csl))) #
             map Send ms @ [Infof ''collected %d componentstatuses'' (int (length csl))] \<and>
      resourcesPerScrape w' ''componentstatus'' =
        resourcesPerScrape w ''componentstatus'' @ [float64_of_int (int (length csl))]"
    by (rule exI [of _ "concat (map cs_samples csl)"])
      (simp add: cs_items_loop_eq cs_Collect_ok resourcesPerScrape_append
        resourcesPerScrape_map_Send)
next
  assume "valid_run items oss"
  then show "\<exists>ms w'.
        lr_items_loop items oss
           (w @ [ResourcesObserve ''limitrange'' (float64_of_int (int (length items)))]) =
         Some (w @ ResourcesObserve ''limitrange'' (float64_of_int (int (length items))) #
               map Send ms) \<and>
        lr_Collect (items, None) oss w = Some w' \<and>
        w' = w @ ResourcesObserve ''limitrange'' (float64_of_int (int (length items))) #
               map Send ms @ [Infof ''collected %d limitranges'' (int (length items))] \<and>
        resourcesPerScrape w' ''limitrange'' =
          resourcesPerScrape w ''limitrange'' @ [float64_of_int (int (length items))]"
    by (intro exI [of _ "run_samples items oss"])
      (simp add: lr_items_loop_valid lr_Collect_ok resourcesPerScrape_append
        resourcesPerScrape_map_Send)
next
  assume "n \<le> 2 ^ 53"
  then have "\<bar>int n\<bar> \<le> 2 ^ 53"
    by (metis abs_of_nat of_nat_le_iff of_nat_numeral of_nat_power)
  then show "float64_of_int (int n) = of_nat n"
    by (simp add: float64_of_int_exact)
qed

theorem Collect_observes_count_witness:
  "valid_run [example_limitrange] [[example_order]] \<and> (1::nat) \<le> 2 ^ 53 \<and>
   (\<exists>w'. cs_Collect ([example_componentstatus], None) [] = Some w' \<and>
         resourcesPerScrape w' ''componentstatus'' = [1]) \<and>
   (\<exists>w'. lr_Collect ([example_limitrange], None) [[example_order]] [] = Some w' \<and>
         resourcesPerScrape w' ''limitrange'' = [1])"
proof -
  have v: "valid_run [example_limitrange] [[example_order]]"
    by (simp add: valid_run_def example_valid)
  have n: "(1::nat) \<le> 2 ^ 53" by simp
  show ?thesis
    using v n Collect_observes_count [of "[example_componentstatus]" "[]"
        "[example_limitrange]" "[[example_order]]" 1]
    by auto
qed

section \<open>Two scrapes of one snapshot\<close>

lemma constraint_samples_mset:
  assumes "valid_keys m ks" and "valid_keys m ks'"
  shows "mset (constraint_samples rq ty c m ks) = mset (constraint_samples rq ty c m ks')"
proof -
  have "mset ks = mset ks'"
    using assms by (simp add: valid_keys_def set_eq_iff_mset_eq_distinct [symmetric])
  then have "mset (filter (\<lambda>r. m r \<noteq> None) ks) = mset (filter (\<lambda>r. m r \<noteq> None) ks')"
    by (simp only: mset_filter)
  then have "mset (map (\<lambda>r. limit_sample rq ty c r (the (m r))) (filter (\<lambda>r. m r \<noteq> None) ks)) =
      mset (map (\<lambda>r. limit_sample rq ty c r (the (m r))) (filter (\<lambda>r. m r \<noteq> None) ks'))"
    by (simp only: mset_map)
  then show ?thesis
    by (simp only: constraint_samples_map)
qed

lemma item_samples_mset:
  assumes "valid_item_order it ord" and "valid_item_order it ord'"
  shows "mset (item_samples rq it ord) = mset (item_samples rq it ord')"
  using assms
  by (simp add: item_samples_def valid_item_order_def
      constraint_samples_mset [of _ "ord_Min ord" "ord_Min ord'"]
      constraint_samples_mset [of _ "ord_Max ord" "ord_Max ord'"]
      constraint_samples_mset [of _ "ord_Default ord" "ord_Default ord'"]
      constraint_samples_mset [of _ "ord_DefaultRequest ord" "ord_DefaultRequest ord'"]
      constraint_samples_mset [of _ "ord_MaxLimitRequestRatio ord" "ord_MaxLimitRequestRatio ord'"])

lemma limits_samples_mset:
  assumes "list_all2 valid_item_order its ords" and "list_all2 valid_item_order its ords'"
  shows "mset (limits_samples rq its ords) = mset (limits_samples rq its ords')"
  using assms
proof (induction its arbitrary: ords ords')
  case Nil
  then show ?case by (simp add: limits_samples_def)
next
  case (Cons it its)
  then obtain ord os ord' os' where
    "ords = ord # os" "ords' = ord' # os'"
    "valid_item_order it ord" "valid_item_order it ord'"
    "list_all2 valid_item_order its os" "list_all2 valid_item_order its os'"
    by (auto simp: list_all2_Cons1)
  then show ?case
    using Cons.IH [of os os'] item_samples_mset [of it ord ord' rq]
    by (simp add: limits_samples_def)
qed

lemma lr_samples_mset:
  assumes "valid_orders rq ords" and "valid_orders rq ords'"
  shows "mset (lr_samples rq ords) = mset (lr_samples rq ords')"
  using assms limits_samples_mset [of "Limits (Spec rq)" ords ords' rq]
  by (simp add: lr_samples_def valid_orders_def)

lemma run_samples_mset:
  assumes "valid_run items oss" and "valid_run items oss'"
  shows "mset (run_samples items oss) = mset (run_samples items oss')"
  using assms unfolding valid_run_def
proof (induction items arbitrary: oss oss')
  case Nil
  then show ?case by (simp add: run_samples_def)
next
  case (Cons rq items)
  then obtain ords os ords' os' where
    "oss = ords # os" "oss' = ords' # os'"
    "valid_orders rq ords" "valid_orders rq ords'"
    "list_all2 valid_orders items os" "list_all2 valid_orders items os'"
    by (auto simp: list_all2_Cons1)
  then show ?case
    using Cons.IH [of os os'] lr_samples_mset [of rq ords ords']
    by (simp add: run_samples_def)
qed

lemma cs_Collect_sent: "\<exists>w'. cs_Collect (csl, err) w = Some w' \<and>
    sent w' = sent w @ (case err of None \<Rightarrow> concat (map cs_samples csl) | Some e \<Rightarrow> [])"
  by (cases err) (simp_all add: cs_Collect_ok sent_append sent_map_Send, simp add: cs_Collect_def sent_append)

lemma lr_Collect_sent:
  assumes "valid_run items oss"
  shows "\<exists>w'. lr_Collect (items, err) oss w = Some w' \<and>
    sent w' = sent w @ (case err of None \<Rightarrow> run_samples items oss | Some e \<Rightarrow> [])"
proof (cases err)
  case None
  then show ?thesis
    using assms by (simp add: lr_Collect_ok sent_append sent_map_Send)
next
  case (Some e)
  then show ?thesis by (simp add: lr_Collect_def sent_append)
qed

lemma example_values:
  "f64_div (float64_of_int 1500) 1000 = 3 / 2"
  "f64_div (float64_of_int 1000) 1000 = 1"
  "f64_div (float64_of_int 2000) 1000 = 2"
  "float64_of_int 1 = 1"
  "float64_of_int 1501200000 = 1501200000"
  by code_simp+

text \<open>
  C9, as stated, fails for the limitrange collector: the order of the samples follows
  the order in which the runtime visits the keys of the maps. Two scrapes of one snapshot,
  in which the \<open>Min\<close> map of the example object is visited as \<open>cpu\<close>, \<open>memory\<close> and as
  \<open>memory\<close>, \<open>cpu\<close>, send the second and the third sample in opposite orders.
\<close>

theorem limitrange_sample_order_varies:
  "valid_run [example_limitrange] [[example_order]] \<and>
   valid_run [example_limitrange] [[example_order']] \<and>
   lr_Collect ([example_limitrange], None) [[example_order]] [] =
     Some [ResourcesObserve ''limitrange'' 1,
           Send \<lparr>desc = descLimitRangeCreated, valType = GaugeValue, val = 1501200000,
                  labelValues = [''limits'', ''default'']\<rparr>,
           Send \<lparr>desc = descLimitRange, valType = GaugeValue, val = 3 / 2,
                  labelValues = [''limits'', ''default'', ''cpu'', ''Container'', ''min'']\<rparr>,
           Send \<lparr>desc = descLimitRange, valType = GaugeValue, val = 1,
                  labelValues = [''limits'', ''default'', ''memory'', ''Container'', ''min'']\<rparr>,
           Send \<lparr>desc = descLimitRange, valType = GaugeValue, val = 2,
                  labelValues = [''limits'', ''default'', ''cpu'', ''Container'', ''max'']\<rparr>,
           Infof ''collected %d limitranges'' 1] \<and>
   lr_Collect ([example_limitrange], None) [[example_order']] [] =
     Some [ResourcesObserve ''limitrange'' 1,
           Send \<lparr>desc = descLimitRangeCreated, valType = GaugeValue, val = 1501200000,
                  labelValues = [''limits'', ''default'']\<rparr>,
           Send \<lparr>desc = descLimitRange, valType = GaugeValue, val = 1,
                  labelValues = [''limits'', ''default'', ''memory'', ''Container'', ''min'']\<rparr>,
           Send \<lparr>desc = descLimitRange, valType = GaugeValue, val = 3 / 2,
                  labelValues = [''limits'', ''default'', ''cpu'', ''Container'', ''min'']\<rparr>,
           Send \<lparr>desc = descLimitRange, valType = GaugeValue, val = 2,
                  labelValues = [''limits'', ''default'', ''cpu'', ''Container'', ''max'']\<rparr>,
           Infof ''collected %d limitranges'' 1]"
proof -
  have u: "Unix \<lparr>sec = 63636796800, nsec = 0\<rparr> = 1501200000"
    by (simp add: Unix_def unixToInternal_def)
  have "valid_run [example_limitrange] [[example_order]]"
    and "valid_run [example_limitrange] [[example_order']]"
    by (simp_all add: valid_run_def example_valid example_valid')
  then show ?thesis
    by (simp add: lr_Collect_def
        collectLimitRange_def collect_item_def lr_addGauge_def MustNewConstMetric_def
        descLimitRange_def descLimitRangeCreated_def NewDesc_def IsZero_def u
        example_limitrange_def example_order_def example_order'_def example_values)
qed

text \<open>
  C9, amended. Two successive calls of \<open>Collect\<close> with the same result of \<open>List()\<close> send
  the same samples, whatever the state before. For the componentstatus collector they
  are sent in the same order. For the limitrange collector they are the same as a
  multiset, with the same descriptor, label values and value each; their order is the
  same when the runtime visits the maps in the same order both times.
\<close>

theorem Collect_twice:
  "(\<exists>ms w1 w2. cs_Collect r w = Some w1 \<and> cs_Collect r w1 = Some w2 \<and>
       sent w1 = sent w @ ms \<and> sent w2 = sent w1 @ ms) \<and>
   (valid_run (fst l) oss \<and> valid_run (fst l) oss' \<longrightarrow>
     (\<exists>ms ms' w1 w2. lr_Collect l oss w = Some w1 \<and> lr_Collect l oss' w1 = Some w2 \<and>
        sent w1 = sent w @ ms \<and> sent w2 = sent w1 @ ms' \<and> mset ms = mset ms' \<and>
        (if oss = oss' then ms = ms' else True)))"
proof (intro conjI impI)
  obtain csl err where r: "r = (csl, err)" by (cases r)
  show "\<exists>ms w1 w2. cs_Collect r w = Some w1 \<and> cs_Collect r w1 = Some w2 \<and>
       sent w1 = sent w @ ms \<and> sent w2 = sent w1 @ ms"
    unfolding r using cs_Collect_sent [of csl err] by metis
next
  assume v: "valid_run (fst l) oss \<and> valid_run (fst l) oss'"
  obtain items err where l: "l = (items, err)" by (cases l)
  define f where "f os = (case err of None \<Rightarrow> run_samples items os | Some e \<Rightarrow> [])" for os
  from v l obtain w1 where w1: "lr_Collect l oss w = Some w1" "sent w1 = sent w @ f oss"
    using lr_Collect_sent [of items oss err w] by (auto simp: f_def)
  from v l obtain w2 where w2: "lr_Collect l oss' w1 = Some w2" "sent w2 = sent w1 @ f oss'"
    using lr_Collect_sent [of items oss' err w1] by (auto simp: f_def)
  have "mset (f oss) = mset (f oss')"
    using v l run_samples_mset [of items oss oss'] by (simp add: f_def split: option.splits)
  with w1 w2 show "\<exists>ms ms' w1 w2. lr_Collect l oss w = Some w1 \<and> lr_Collect l oss' w1 = Some w2 \<and>
        sent w1 = sent w @ ms \<and> sent w2 = sent w1 @ ms' \<and> mset ms = mset ms' \<and>
        (if oss = oss' then ms = ms' else True)"
    by (intro exI [of _ "f oss"] exI [of _ "f oss'"] exI [of _ w1] exI [of _ w2]) simp
qed

theorem Collect_twice_witness:
  "valid_run [example_limitrange] [[example_order]] \<and>
   valid_run [example_limitrange] [[example_order']] \<and>
   (\<exists>ms ms' w1 w2.
      lr_Collect ([example_limitrange], None) [[example_order]] [] = Some w1 \<and>
      lr_Collect ([example_limitrange], None) [[example_order']] w1 = Some w2 \<and>
      sent w1 = ms \<and> sent w2 = sent w1 @ ms' \<and> mset ms = mset ms')"
proof -
  have v: "valid_run [example_limitrange] [[example_order]]"
    and v': "valid_run [example_limitrange] [[example_order']]"
    by (simp_all add: valid_run_def example_valid example_valid')
  then have "valid_run (fst ([example_limitrange], None :: string option)) [[example_order]] \<and>
      valid_run (fst ([example_limitrange], None :: string option)) [[example_order']]"
    by simp
  with Collect_twice [of "([example_componentstatus], None)" "[]"
        "([example_limitrange], None)" "[[example_order]]" "[[example_order']]"]
  obtain ms ms' w1 w2 where
    "lr_Collect ([example_limitrange], None) [[example_order]] [] = Some w1"
    "lr_Collect ([example_limitrange], None) [[example_order']] w1 = Some w2"
    "sent w1 = sent [] @ ms" "sent w2 = sent w1 @ ms'" "mset ms = mset ms'"
    by blast
  with v v' show ?thesis by auto
qed

section \<open>The value of a limit\<close>

lemma constraint_samples_entry:
  assumes "valid_keys m ks" and "m r = Some q"
  shows "limit_sample rq ty c r q \<in> set (constraint_samples rq ty c m ks)"
  using assms by (auto simp: constraint_samples_set valid_keys_def)

lemma item_samples_entry:
  assumes "valid_item_order it ord" and "(c, m) \<in> set (constraints it)" and "m r = Some q"
  shows "limit_sample rq (Item_Type it) c r q \<in> set (item_samples rq it ord)"
  using assms
  by (auto simp: constraints_def item_samples_def valid_item_order_def
      intro: constraint_samples_entry)

lemma limits_samples_entry:
  assumes "list_all2 valid_item_order its ords" and "it \<in> set its"
    and "(c, m) \<in> set (constraints it)" and "m r = Some q"
  shows "limit_sample rq (Item_Type it) c r q \<in> set (limits_samples rq its ords)"
  using assms(1,2)
proof (induction its ords rule: list_all2_induct)
  case Nil
  then show ?case by simp
next
  case (Cons x xs y ys)
  then show ?case
    using item_samples_entry [OF _ assms(3,4), of y rq]
    by (auto simp: limits_samples_def)
qed

lemma lr_samples_entry:
  assumes "valid_orders rq ords" and "it \<in> set (Limits (Spec rq))"
    and "(c, m) \<in> set (constraints it)" and "m r = Some q"
  shows "limit_sample rq (Item_Type it) c r q \<in> set (lr_samples rq ords)"
  using limits_samples_entry [OF _ assms(2,3,4)] assms(1)
  by (simp add: lr_samples_def valid_orders_def)

lemma large_valid: "valid_orders large_limitrange [large_order]"
  by (auto simp: valid_orders_def valid_item_order_def valid_keys_def large_limitrange_def
      large_order_def)

lemma large_values:
  "float64_of_int 9007199254740999 = 9007199254741000"
  "f64_div (float64_of_int 9007199254740999) 1000 = 9007199254741"
  "f64_round (9007199254740999 / 1000) = 4611686018427391 / 512"
  by code_simp+

text \<open>
  C7, as stated, fails above \<open>2\<^sup>5\<^sup>3\<close> milli-units: the conversion \<open>float64(MilliValue())\<close>
  rounds before the division. For the milli-value 9007199254740999 the conversion gives
  9007199254741000 and the sample is 9007199254741, which is neither the quotient
  9007199254740.999 nor the float64 nearest to it, 9007199254740.998046875.
\<close>

theorem limit_value_rounded_twice:
  "valid_orders large_limitrange [large_order] \<and>
   collectLimitRange large_limitrange [large_order] [] =
     Some [Send \<lparr>desc = descLimitRange, valType = GaugeValue, val = 9007199254741,
                  labelValues = [''limits'', ''default'', ''memory'', ''Container'', ''max'']\<rparr>] \<and>
   float64_of_int 9007199254740999 = 9007199254741000 \<and>
   f64_round (9007199254740999 / 1000) = 4611686018427391 / 512 \<and>
   (9007199254741 :: rat) \<noteq> 9007199254740999 / 1000 \<and>
   (9007199254741 :: rat) \<noteq> 4611686018427391 / 512"
proof -
  have "collectLimitRange large_limitrange [large_order] [] =
     Some [Send \<lparr>desc = descLimitRange, valType = GaugeValue, val = 9007199254741,
                  labelValues = [''limits'', ''default'', ''memory'', ''Container'', ''max'']\<rparr>]"
    by (simp add: collectLimitRange_def collect_item_def lr_addGauge_def
        MustNewConstMetric_def descLimitRange_def NewDesc_def IsZero_def
        large_limitrange_def large_order_def large_values(2))
  then show ?thesis
    using large_valid by (simp add: large_values)
qed

text \<open>
  C7, amended. In every run, each entry of the maps \<open>Min\<close>, \<open>Max\<close>, \<open>Default\<close>,
  \<open>DefaultRequest\<close> and \<open>MaxLimitRequestRatio\<close> of each item of a limit range yields a
  \<open>kube_limitrange\<close> gauge labelled with the name, the namespace, the resource, the type
  and the constraint, whose value is \<open>float64(MilliValue()) / 1000\<close> in float64 arithmetic.
  For a milli-value up to \<open>2\<^sup>5\<^sup>3\<close> in magnitude the conversion is exact, so the value is
  the quotient by 1000 rounded once, to the nearest float64: it differs from the quotient
  by at most the fraction \<open>2\<^sup>-\<^sup>5\<^sup>3\<close> of it, and the milli-value 1500 gives exactly 1.5.
\<close>

theorem limit_value:
  assumes "valid_orders rq ords" and "it \<in> set (Limits (Spec rq))"
    and "(c, m) \<in> set (constraints it)" and "m resource = Some q"
  shows "\<exists>ms v. collectLimitRange rq ords w = Some (w @ map Send ms) \<and>
     \<lparr>desc = descLimitRange, valType = GaugeValue, val = v,
      labelValues = [Name rq, Namespace rq, resource, Item_Type it, c]\<rparr> \<in> set ms \<and>
     v = f64_div (float64_of_int (MilliValue q)) 1000 \<and>
     (\<bar>MilliValue q\<bar> \<le> 2 ^ 53 \<longrightarrow>
        v = f64_round (of_int (MilliValue q) / 1000) \<and>
        \<bar>v - of_int (MilliValue q) / 1000\<bar> \<le> \<bar>of_int (MilliValue q) / 1000\<bar> / 2 ^ 53) \<and>
     (MilliValue q = 1500 \<longrightarrow> v = 3 / 2)"
proof -
  define v where "v = f64_div (float64_of_int (MilliValue q)) 1000"
  have run: "collectLimitRange rq ords w = Some (w @ map Send (lr_samples rq ords))"
    using assms(1) by (rule collectLimitRange_valid)
  have mem: "\<lparr>desc = descLimitRange, valType = GaugeValue, val = v,
      labelValues = [Name rq, Namespace rq, resource, Item_Type it, c]\<rparr> \<in> set (lr_samples rq ords)"
    using lr_samples_entry [OF assms] by (simp add: limit_sample_def v_def)
  have small: "v = f64_round (of_int (MilliValue q) / 1000) \<and>
        \<bar>v - of_int (MilliValue q) / 1000\<bar> \<le> \<bar>of_int (MilliValue q) / 1000\<bar> / 2 ^ 53"
    if "\<bar>MilliValue q\<bar> \<le> 2 ^ 53"
  proof -
    have "v = f64_round (of_int (MilliValue q) / 1000)"
      using that by (simp add: v_def f64_div_def float64_of_int_exact)
    then show ?thesis
      using f64_round_error [of "of_int (MilliValue q) / 1000"] by simp
  qed
  have "f64_div (float64_of_int 1500) 1000 = 3 / 2"
    by code_simp
  then have "v = 3 / 2" if "MilliValue q = 1500"
    using that by (simp add: v_def)
  with run mem small show ?thesis
    unfolding v_def [symmetric] by blast
qed

theorem limit_value_witness:
  "valid_orders example_limitrange [example_order] \<and>
   \<lparr>Item_Type = ''Container'',
     Item_Max = [''cpu'' \<mapsto> \<lparr>MilliValue = 2000\<rparr>],
     Item_Min = [''cpu'' \<mapsto> \<lparr>MilliValue = 1500\<rparr>, ''memory'' \<mapsto> \<lparr>MilliValue = 1000\<rparr>],
     Item_Default = Map.empty, Item_DefaultRequest = Map.empty,
     Item_MaxLimitRequestRatio = Map.empty\<rparr> \<in> set (Limits (Spec example_limitrange)) \<and>
   (\<exists>ms. collectLimitRange example_limitrange [example_order] [] = Some (map Send ms) \<and>
      \<lparr>desc = descLimitRange, valType = GaugeValue, val = 3 / 2,
       labelValues = [''limits'', ''default'', ''cpu'', ''Container'', ''min'']\<rparr> \<in> set ms)"
proof -
  define it where "it =
    \<lparr>Item_Type = ''Container'',
     Item_Max = [''cpu'' \<mapsto> \<lparr>MilliValue = 2000\<rparr>],
     Item_Min = [''cpu'' \<mapsto> \<lparr>MilliValue = 1500\<rparr>, ''memory'' \<mapsto> \<lparr>MilliValue = 1000\<rparr>],
     Item_Default = Map.empty, Item_DefaultRequest = Map.empty,
     Item_MaxLimitRequestRatio = Map.empty\<rparr>"
  have a: "it \<in> set (Limits (Spec example_limitrange))"
    by (simp add: it_def example_limitrange_def)
  have b: "(''min'', Item_Min it) \<in> set (constraints it)"
    by (simp add: constraints_def)
  have c: "Item_Min it ''cpu'' = Some \<lparr>MilliValue = 1500\<rparr>"
    by (simp add: it_def)
  have n: "Name example_limitrange = ''limits''" "Namespace example_limitrange = ''default''"
    "Item_Type it = ''Container''"
    by (simp_all add: example_limitrange_def it_def)
  from limit_value [OF example_valid a b c, of "[]"]
  obtain ms v where run: "collectLimitRange example_limitrange [example_order] [] =
      Some ([] @ map Send ms)"
    and mem: "\<lparr>desc = descLimitRange, valType = GaugeValue, val = v,
       labelValues = [Name example_limitrange, Namespace example_limitrange, ''cpu'',
         Item_Type it, ''min'']\<rparr> \<in> set ms"
    and v: "MilliValue \<lparr>MilliValue = 1500\<rparr> = 1500 \<longrightarrow> v = 3 / 2"
    by blast
  from v have "v = 3 / 2" by simp
  with run mem have "collectLimitRange example_limitrange [example_order] [] = Some (map Send ms) \<and>
      \<lparr>desc = descLimitRange, valType = GaugeValue, val = 3 / 2,
       labelValues = [''limits'', ''default'', ''cpu'', ''Container'', ''min'']\<rparr> \<in> set ms"
    by (simp add: n)
  with example_valid a show ?thesis
    unfolding it_def by blast
qed

end
